theory Spec2Isabelle
  imports Complex_Main
begin

section \<open>JavaScript Number values\<close>

text \<open>
  The component \<^verbatim>\<open>src/src/components/BMICalculator.jsx\<close> keeps its inputs as strings and
  lets the language coerce them: \<^verbatim>\<open>weight / (height * height)\<close> applies ToNumber to both
  strings, multiplies and divides IEEE-754 binary64 values, and \<^verbatim>\<open>.toFixed(2)\<close> formats the
  quotient. A Number is modelled by its exact value: not-a-number, an infinity with its
  sign, or a finite value given by its sign (\<open>True\<close> is negative, so that \<open>-0\<close> is
  \<open>Fin True 0\<close>) and its magnitude, a rational number that a binary64 can hold.
\<close>

datatype jsnum = NaN | Inf bool | Fin bool rat

text \<open>The number of binary digits of a positive integer.\<close>

function bitlen :: "int \<Rightarrow> int" where
  "bitlen n = (if n \<le> 0 then 0 else 1 + bitlen (n div 2))"
  by pat_completeness auto
termination
  by (relation "measure nat") auto

declare bitlen.simps [simp del]

definition pow2 :: "int \<Rightarrow> rat" where
  "pow2 e = (if 0 \<le> e then 2 ^ nat e else 1 / 2 ^ nat (- e))"

text \<open>For \<open>0 < q\<close>, the exponent \<open>e\<close> with \<open>2^e \<le> q < 2^(e+1)\<close>.\<close>

definition floor_log2 :: "rat \<Rightarrow> int" where
  "floor_log2 q =
     (if 1 \<le> q then bitlen \<lfloor>q\<rfloor> - 1
      else let m = bitlen \<lfloor>1 / q\<rfloor> - 1 in if q * pow2 m = 1 then - m else - m - 1)"

definition round_half_even :: "rat \<Rightarrow> int" where
  "round_half_even q =
     (let f = \<lfloor>q\<rfloor>; d = q - of_int f
      in if d < 1 / 2 then f else if 1 / 2 < d then f + 1
         else if even f then f else f + 1)"

text \<open>
  Rounding of an exact magnitude \<open>q \<ge> 0\<close> to binary64, to nearest with ties to even: 53
  significant bits, exponents from \<open>-1022\<close> (below it the spacing stays \<open>2^-1074\<close>, the
  subnormal numbers, so that tiny values round to zero) and overflow to infinity from
  \<open>2^1024\<close> on.
\<close>

definition to_double :: "bool \<Rightarrow> rat \<Rightarrow> jsnum" where
  "to_double sg q =
     (if q = 0 then Fin sg 0
      else let e = max (floor_log2 q) (- 1022);
               ulp = pow2 (e - 52);
               r = of_int (round_half_even (q / ulp)) * ulp
           in if pow2 1024 \<le> r then Inf sg else Fin sg r)"

text \<open>\<^verbatim>\<open>a * b\<close> on Numbers.\<close>

fun js_mul :: "jsnum \<Rightarrow> jsnum \<Rightarrow> jsnum" where
  "js_mul NaN b = NaN"
| "js_mul a NaN = NaN"
| "js_mul (Inf s) (Inf t) = Inf (s \<noteq> t)"
| "js_mul (Inf s) (Fin t y) = (if y = 0 then NaN else Inf (s \<noteq> t))"
| "js_mul (Fin s x) (Inf t) = (if x = 0 then NaN else Inf (s \<noteq> t))"
| "js_mul (Fin s x) (Fin t y) = to_double (s \<noteq> t) (x * y)"

text \<open>\<^verbatim>\<open>a / b\<close> on Numbers: a division by zero is no error, it gives an infinity or NaN.\<close>

fun js_div :: "jsnum \<Rightarrow> jsnum \<Rightarrow> jsnum" where
  "js_div NaN b = NaN"
| "js_div a NaN = NaN"
| "js_div (Inf s) (Inf t) = NaN"
| "js_div (Inf s) (Fin t y) = Inf (s \<noteq> t)"
| "js_div (Fin s x) (Inf t) = Fin (s \<noteq> t) 0"
| "js_div (Fin s x) (Fin t y) =
     (if y = 0 then (if x = 0 then NaN else Inf (s \<noteq> t))
      else to_double (s \<noteq> t) (x / y))"

definition rval :: "bool \<Rightarrow> rat \<Rightarrow> rat" where
  "rval neg m = (if neg then - m else m)"

text \<open>\<^verbatim>\<open>a < b\<close> and \<^verbatim>\<open>a <= b\<close> on Numbers: false as soon as one side is NaN.\<close>

fun js_lt :: "jsnum \<Rightarrow> jsnum \<Rightarrow> bool" where
  "js_lt NaN b = False"
| "js_lt a NaN = False"
| "js_lt (Inf s) (Inf t) = (s \<and> \<not> t)"
| "js_lt (Inf s) (Fin t y) = s"
| "js_lt (Fin s x) (Inf t) = (\<not> t)"
| "js_lt (Fin s x) (Fin t y) = (rval s x < rval t y)"

fun js_le :: "jsnum \<Rightarrow> jsnum \<Rightarrow> bool" where
  "js_le NaN b = False"
| "js_le a NaN = False"
| "js_le (Inf s) (Inf t) = (s \<or> \<not> t)"
| "js_le (Inf s) (Fin t y) = s"
| "js_le (Fin s x) (Inf t) = (\<not> t)"
| "js_le (Fin s x) (Fin t y) = (rval s x \<le> rval t y)"

section \<open>ToNumber on strings\<close>

text \<open>
  Strings are lists of code units below 256. The white space and line terminators of
  StringNumericLiteral in that range are TAB, LF, VT, FF, CR, SP and NBSP.
\<close>

definition StrWhiteSpaceChar :: "char \<Rightarrow> bool" where
  "StrWhiteSpaceChar c \<longleftrightarrow>
     c \<in> set [CHR 0x09, CHR 0x0A, CHR 0x0B, CHR 0x0C, CHR 0x0D, CHR 0x20, CHR 0xA0]"

definition trim :: "string \<Rightarrow> string" where
  "trim s = rev (dropWhile StrWhiteSpaceChar (rev (dropWhile StrWhiteSpaceChar s)))"

definition digit_of :: "char \<Rightarrow> int option" where
  "digit_of c =
     map_of [(CHR ''0'', 0), (CHR ''1'', 1), (CHR ''2'', 2), (CHR ''3'', 3), (CHR ''4'', 4),
             (CHR ''5'', 5), (CHR ''6'', 6), (CHR ''7'', 7), (CHR ''8'', 8), (CHR ''9'', 9),
             (CHR ''a'', 10), (CHR ''b'', 11), (CHR ''c'', 12), (CHR ''d'', 13),
             (CHR ''e'', 14), (CHR ''f'', 15),
             (CHR ''A'', 10), (CHR ''B'', 11), (CHR ''C'', 12), (CHR ''D'', 13),
             (CHR ''E'', 14), (CHR ''F'', 15)] c"

definition is_digit :: "char \<Rightarrow> bool" where
  "is_digit c \<longleftrightarrow> c \<in> set ''0123456789''"

text \<open>The value of a digit string in radix \<open>r\<close>; \<open>None\<close> at a character that is no digit of it.\<close>

fun radix_value :: "int \<Rightarrow> int \<Rightarrow> string \<Rightarrow> int option" where
  "radix_value r acc [] = Some acc"
| "radix_value r acc (c # cs) =
     (case digit_of c of
        None \<Rightarrow> None
      | Some d \<Rightarrow> if d < r then radix_value r (acc * r + d) cs else None)"

text \<open>The value of a string of decimal digits.\<close>

definition dec_value :: "string \<Rightarrow> int" where
  "dec_value ds =
     foldl (\<lambda>acc c. acc * 10 + (case digit_of c of Some d \<Rightarrow> d | None \<Rightarrow> 0)) 0 ds"

text \<open>NonDecimalIntegerLiteral: \<^verbatim>\<open>0x\<close>, \<^verbatim>\<open>0o\<close>, \<^verbatim>\<open>0b\<close> and at least one digit, no sign.\<close>

fun non_decimal :: "string \<Rightarrow> int option" where
  "non_decimal (z # p # ds) =
     (if z = CHR ''0'' \<and> ds \<noteq> [] then
        (if p = CHR ''x'' \<or> p = CHR ''X'' then radix_value 16 0 ds
         else if p = CHR ''o'' \<or> p = CHR ''O'' then radix_value 8 0 ds
         else if p = CHR ''b'' \<or> p = CHR ''B'' then radix_value 2 0 ds
         else None)
      else None)"
| "non_decimal s = None"

fun split_sign :: "string \<Rightarrow> bool \<times> string" where
  "split_sign [] = (False, [])"
| "split_sign (c # cs) =
     (if c = CHR ''-'' then (True, cs) else if c = CHR ''+'' then (False, cs)
      else (False, c # cs))"

definition pow10 :: "int \<Rightarrow> rat" where
  "pow10 e = (if 0 \<le> e then 10 ^ nat e else 1 / 10 ^ nat (- e))"

text \<open>ExponentPart, optional: \<^verbatim>\<open>e\<close> or \<^verbatim>\<open>E\<close>, an optional sign, at least one digit.\<close>

fun exponent_part :: "string \<Rightarrow> int option" where
  "exponent_part [] = Some 0"
| "exponent_part (c # cs) =
     (if c = CHR ''e'' \<or> c = CHR ''E'' then
        (case split_sign cs of
           (neg, ds) \<Rightarrow>
             if ds = [] \<or> \<not> list_all is_digit ds then None
             else Some (if neg then - dec_value ds else dec_value ds))
      else None)"

text \<open>
  The mathematical value of a StrUnsignedDecimalLiteral other than \<^verbatim>\<open>Infinity\<close>:
  digits, an optional point and digits (one of the two digit strings may be empty, not
  both), an optional exponent part, and nothing after it.
\<close>

definition unsigned_decimal :: "string \<Rightarrow> rat option" where
  "unsigned_decimal u =
     (let ip = takeWhile is_digit u;
          r1 = dropWhile is_digit u;
          pt = (r1 \<noteq> [] \<and> hd r1 = CHR ''.'');
          fp = (if pt then takeWhile is_digit (tl r1) else []);
          r2 = (if pt then dropWhile is_digit (tl r1) else r1)
      in if ip = [] \<and> fp = [] then None
         else (case exponent_part r2 of
                 None \<Rightarrow> None
               | Some e \<Rightarrow>
                   Some ((of_int (dec_value ip) + of_int (dec_value fp) / 10 ^ length fp)
                         * pow10 e)))"

text \<open>
  StringToNumber: white space is trimmed, the empty string is \<open>+0\<close>, a string outside
  the grammar is NaN, and the mathematical value of a literal is rounded to binary64.
\<close>

definition ToNumber :: "string \<Rightarrow> jsnum" where
  "ToNumber str =
     (let t = trim str
      in if t = [] then Fin False 0
         else (case non_decimal t of
                 Some n \<Rightarrow> to_double False (of_int n)
               | None \<Rightarrow>
                   (case split_sign t of
                      (neg, u) \<Rightarrow>
                        if u = ''Infinity'' then Inf neg
                        else (case unsigned_decimal u of
                                None \<Rightarrow> NaN
                              | Some q \<Rightarrow> to_double neg q))))"

section \<open>Number to string\<close>

definition digit_char :: "int \<Rightarrow> char" where
  "digit_char d = ''0123456789'' ! nat d"

text \<open>The digits of the decimal representation of a non-negative integer.\<close>

function dec_digits :: "int \<Rightarrow> string" where
  "dec_digits n =
     (if n < 10 then [digit_char n] else dec_digits (n div 10) @ [digit_char (n mod 10)])"
  by pat_completeness auto
termination
  by (relation "measure nat") auto

declare dec_digits.simps [simp del]

text \<open>
  Number::toString picks the shortest digit string that reads back as the same Number:
  integers \<open>n\<close>, \<open>k\<close>, \<open>s\<close> with \<open>k\<close> digits in \<open>s\<close>, \<open>s * 10^(n-k)\<close> rounding to
  \<open>x\<close>, and \<open>k\<close> as small as possible; among several \<open>s\<close> the one closest to \<open>x\<close>,
  the even one at a tie. \<open>shortest_digits k p x\<close> searches from \<open>k\<close> digits on for an
  integer \<open>x\<close> of \<open>p\<close> digits and returns \<open>s * 10^(n-k)\<close>; only the two multiples of
  \<open>10^(p-k)\<close> around \<open>x\<close> can be the closest.
\<close>

function shortest_digits :: "nat \<Rightarrow> nat \<Rightarrow> rat \<Rightarrow> int" where
  "shortest_digits k p x =
     (if p \<le> k then \<lfloor>x\<rfloor>
      else let t = 10 ^ (p - k);
               lo = \<lfloor>x / of_int t\<rfloor> * t;
               hi = lo + t;
               oklo = (to_double False (of_int lo) = Fin False x);
               okhi = (to_double False (of_int hi) = Fin False x)
           in if oklo \<and> okhi then
                (if x - of_int lo < of_int hi - x then lo
                 else if of_int hi - x < x - of_int lo then hi
                 else if even (lo div t) then lo else hi)
              else if oklo then lo
              else if okhi then hi
              else shortest_digits (Suc k) p x)"
  by pat_completeness auto
termination
  by (relation "measure (\<lambda>(k, p, x). p - k)") auto

declare shortest_digits.simps [simp del]

text \<open>
  Number::toString for a finite \<open>x\<close> with \<open>10^21 \<le> x\<close> (an integer, as every binary64
  from \<open>2^53\<close> on): exponential notation, the first digit, a point and the other
  significant digits if there are any, then \<^verbatim>\<open>e+\<close> and the decimal exponent.
\<close>

definition number_to_string_large :: "rat \<Rightarrow> string" where
  "number_to_string_large x =
     (let v = shortest_digits 1 (length (dec_digits \<lfloor>x\<rfloor>)) x;
          ds = dec_digits v;
          sig = rev (dropWhile (\<lambda>c. c = CHR ''0'') (rev ds))
      in (if length sig = 1 then sig else hd sig # CHR ''.'' # tl sig)
         @ ''e+'' @ dec_digits (int (length ds) - 1))"

text \<open>
  \<^verbatim>\<open>x.toFixed(2)\<close>, Number.prototype.toFixed with two fraction digits: a value that is
  not finite is printed by Number::toString; otherwise the sign is split off, a
  magnitude from \<open>10^21\<close> on is printed by Number::toString too, and below it the
  integer \<open>n\<close> with \<open>n / 100\<close> closest to \<open>x\<close> (the larger one of two) is printed with
  its last two digits behind the point, padded with zeros to three digits.
\<close>

definition toFixed2 :: "jsnum \<Rightarrow> string" where
  "toFixed2 v =
     (case v of
        NaN \<Rightarrow> ''NaN''
      | Inf neg \<Rightarrow> (if neg then ''-Infinity'' else ''Infinity'')
      | Fin neg x \<Rightarrow>
          (let s = (if neg \<and> 0 < x then ''-'' else [])
           in if 10 ^ 21 \<le> x then s @ number_to_string_large x
              else let n = \<lfloor>x * 100 + 1 / 2\<rfloor>;
                       m = (if n = 0 then ''0'' else dec_digits n);
                       m' = (if length m \<le> 2 then replicate (3 - length m) CHR ''0'' @ m
                             else m);
                       k = length m'
                   in s @ take (k - 2) m' @ ''.'' @ drop (k - 2) m'))"

section \<open>The component\<close>

text \<open>
  The five \<^verbatim>\<open>useState\<close> cells of \<^verbatim>\<open>BMICalculator\<close>. \<^verbatim>\<open>bmi\<close> starts as \<^verbatim>\<open>null\<close>
  (\<open>None\<close>) and otherwise holds the string that \<^verbatim>\<open>toFixed\<close> returned.
\<close>

record state =
  height :: string
  weight :: string
  bmi :: "string option"
  message :: string
  darkMode :: bool

definition initial_state :: state where
  "initial_state = \<lparr>height = [], weight = [], bmi = None, message = [], darkMode = False\<rparr>"

text \<open>The \<^verbatim>\<open>onChange\<close> handlers of the two inputs: \<^verbatim>\<open>e.target.value\<close> is stored as it is.\<close>

definition setHeight :: "string \<Rightarrow> state \<Rightarrow> state" where
  "setHeight v s = s\<lparr>height := v\<rparr>"

definition setWeight :: "string \<Rightarrow> state \<Rightarrow> state" where
  "setWeight v s = s\<lparr>weight := v\<rparr>"

text \<open>The Number literals \<^verbatim>\<open>18.5\<close>, \<^verbatim>\<open>24.9\<close> and \<^verbatim>\<open>29.9\<close> of the ladder.\<close>

definition lit_18_5 :: jsnum where "lit_18_5 = to_double False (185 / 10)"

definition lit_24_9 :: jsnum where "lit_24_9 = to_double False (249 / 10)"

definition lit_29_9 :: jsnum where "lit_29_9 = to_double False (299 / 10)"

text \<open>
  The ladder of \<^verbatim>\<open>calculateBMI\<close>: \<^verbatim>\<open>bmiValue\<close> is a string, and each \<^verbatim>\<open><\<close> against a
  Number converts it with ToNumber first.
\<close>

definition category :: "string \<Rightarrow> string" where
  "category bmiValue =
     (if js_lt (ToNumber bmiValue) lit_18_5 then ''Underweight''
      else if js_lt (ToNumber bmiValue) lit_24_9 then ''Normal weight''
      else if js_lt (ToNumber bmiValue) lit_29_9 then ''Overweight''
      else ''Obese'')"

text \<open>
  \<^verbatim>\<open>calculateBMI\<close>, the submit handler. \<^verbatim>\<open>height && weight\<close> holds when both strings
  are non-empty. The \<^verbatim>\<open>setBMI\<close> and \<^verbatim>\<open>setMessage\<close> calls of one run take effect together.
\<close>

definition calculateBMI :: "state \<Rightarrow> state" where
  "calculateBMI s =
     (if height s \<noteq> [] \<and> weight s \<noteq> [] then
        let bmiValue =
              toFixed2 (js_div (ToNumber (weight s))
                               (js_mul (ToNumber (height s)) (ToNumber (height s))))
        in s\<lparr>bmi := Some bmiValue, message := category bmiValue\<rparr>
      else s\<lparr>message := ''Please enter valid height and weight''\<rparr>)"

definition resetForm :: "state \<Rightarrow> state" where
  "resetForm s = s\<lparr>height := [], weight := [], bmi := None, message := []\<rparr>"

text \<open>The click handler of the theme button, \<^verbatim>\<open>setDarkMode(!darkMode)\<close>.\<close>

definition toggleDarkMode :: "state \<Rightarrow> state" where
  "toggleDarkMode s = s\<lparr>darkMode := \<not> darkMode s\<rparr>"

text \<open>
  The result block is rendered under \<^verbatim>\<open>bmi && (...)\<close>: when \<^verbatim>\<open>bmi\<close> is neither
  \<^verbatim>\<open>null\<close> nor the empty string.
\<close>

definition result_rendered :: "state \<Rightarrow> bool" where
  "result_rendered s = (case bmi s of None \<Rightarrow> False | Some b \<Rightarrow> b \<noteq> [])"


text \<open>
  The events of the widget and its handler for each: a change of either input, the
  submission of the form, a click on the reset button and a click on the theme button.
  Every event is handled in every state. Both inputs are \<^verbatim>\<open>required\<close>, so a browser
  that validates the form withholds a submission with an input empty, and the reset
  button exists only inside the result block: the sequences of events below are a
  superset of the ones a user can produce.
\<close>

datatype event = ChangeHeight string | ChangeWeight string | Submit | Reset | ToggleTheme

fun handle :: "event \<Rightarrow> state \<Rightarrow> state" where
  "handle (ChangeHeight v) s = setHeight v s"
| "handle (ChangeWeight v) s = setWeight v s"
| "handle Submit s = calculateBMI s"
| "handle Reset s = resetForm s"
| "handle ToggleTheme s = toggleDarkMode s"

text \<open>The state after a sequence of events, handled one after the other from the initial state.\<close>

definition run :: "event list \<Rightarrow> state" where
  "run es = foldl (\<lambda>s e. handle e s) initial_state es"

section \<open>Notions of the specification\<close>

text \<open>
  The three states of the informal state machine of the specification, read off what
  the component displays. The message is rendered by \<^verbatim>\<open><p>{message}</p>\<close> inside the
  result block and nowhere else: when the block is not rendered the widget shows the
  empty form, whatever the message cell holds; when it is rendered, the error is shown
  if the message is the instruction string, and a result with its category otherwise.
\<close>

datatype widget = Empty | ErrorShown | ResultShown

definition widget_state :: "state \<Rightarrow> widget" where
  "widget_state s =
     (if result_rendered s then
        (if message s = ''Please enter valid height and weight'' then ErrorShown
         else ResultShown)
      else Empty)"

text \<open>
  A string shown with exactly two decimal digits: digits, a point and two digits; and the
  number it denotes.
\<close>

definition is_fixed2 :: "string \<Rightarrow> bool" where
  "is_fixed2 b =
     (let ip = takeWhile is_digit b; r = dropWhile is_digit b
      in ip \<noteq> [] \<and> r \<noteq> [] \<and> hd r = CHR ''.'' \<and> length (tl r) = 2 \<and> list_all is_digit (tl r))"

definition fixed2_value :: "string \<Rightarrow> rat" where
  "fixed2_value b =
     of_int (dec_value (takeWhile is_digit b))
     + of_int (dec_value (tl (dropWhile is_digit b))) / 100"

section \<open>Evaluation rules\<close>

lemma bitlen_le0: "n \<le> 0 \<Longrightarrow> bitlen n = 0"
  by (simp add: bitlen.simps)

lemma bitlen_pos: "0 < n \<Longrightarrow> bitlen n = 1 + bitlen (n div 2)"
  by (subst bitlen.simps) simp

lemma floor_frac_num: "\<lfloor>(numeral a :: rat) / numeral b\<rfloor> = numeral a div numeral b"
  using floor_divide_of_int_eq [of "numeral a" "numeral b", where ?'a = rat] by simp

lemma dec_digits_small: "n < 10 \<Longrightarrow> dec_digits n = [digit_char n]"
  by (simp add: dec_digits.simps)

lemma dec_digits_large:
  "10 \<le> n \<Longrightarrow> dec_digits n = dec_digits (n div 10) @ [digit_char (n mod 10)]"
  by (subst dec_digits.simps) simp

lemma shortest_digits_stop: "p \<le> k \<Longrightarrow> shortest_digits k p x = \<lfloor>x\<rfloor>"
  by (simp add: shortest_digits.simps)

lemma shortest_digits_step:
  "k < p \<Longrightarrow> shortest_digits k p x =
     (let t = 10 ^ (p - k);
          lo = \<lfloor>x / of_int t\<rfloor> * t;
          hi = lo + t;
          oklo = (to_double False (of_int lo) = Fin False x);
          okhi = (to_double False (of_int hi) = Fin False x)
      in if oklo \<and> okhi then
           (if x - of_int lo < of_int hi - x then lo
            else if of_int hi - x < x - of_int lo then hi
            else if even (lo div t) then lo else hi)
         else if oklo then lo
         else if okhi then hi
         else shortest_digits (Suc k) p x)"
  by (subst shortest_digits.simps) simp

lemmas num_eval = to_double_def floor_log2_def pow2_def round_half_even_def
  bitlen_le0 bitlen_pos floor_frac_num

lemmas str_eval = ToNumber_def trim_def StrWhiteSpaceChar_def unsigned_decimal_def
  is_digit_def dec_value_def digit_of_def pow10_def

lemmas fix_eval = toFixed2_def dec_digits_small dec_digits_large digit_char_def floor_frac_num

lemma lit_18_5_eq: "lit_18_5 = Fin False (37 / 2)"
  by (simp add: lit_18_5_def num_eval)

lemma lit_24_9_eq: "lit_24_9 = Fin False (3504363460047667 / 140737488355328)"
  by (simp add: lit_24_9_def num_eval)

lemma lit_29_9_eq: "lit_29_9 = Fin False (4208050901824307 / 140737488355328)"
  by (simp add: lit_29_9_def num_eval)

lemmas lit_eval = lit_18_5_eq lit_24_9_eq lit_29_9_eq rval_def

text \<open>The strings and Numbers of the three scenarios of the specification.\<close>

lemma ToNumber_1_75: "ToNumber ''1.75'' = Fin False (7 / 4)"
  by (simp add: str_eval num_eval)

lemma ToNumber_70: "ToNumber ''70'' = Fin False 70"
  by (simp add: str_eval num_eval)

lemma quotient_normal:
  "js_div (Fin False 70) (js_mul (Fin False (7 / 4)) (Fin False (7 / 4)))
   = Fin False (6433713753386423 / 281474976710656)"
  by (simp add: num_eval)

lemma toFixed2_normal: "toFixed2 (Fin False (6433713753386423 / 281474976710656)) = ''22.86''"
  by (simp add: fix_eval)

lemma ToNumber_22_86: "ToNumber ''22.86'' = Fin False (1608629491901399 / 70368744177664)"
  by (simp add: str_eval num_eval)

lemma category_22_86: "category ''22.86'' = ''Normal weight''"
  by (simp add: category_def ToNumber_22_86 lit_eval)

lemma scenario_normal:
  "calculateBMI \<lparr>height = ''1.75'', weight = ''70'', bmi = b, message = m, darkMode = d\<rparr>
   = \<lparr>height = ''1.75'', weight = ''70'', bmi = Some ''22.86'', message = ''Normal weight'',
      darkMode = d\<rparr>"
  by (simp add: calculateBMI_def ToNumber_1_75 ToNumber_70 quotient_normal toFixed2_normal
      category_22_86 del: js_mul.simps js_div.simps)

lemma ToNumber_1_60: "ToNumber ''1.60'' = Fin False (3602879701896397 / 2251799813685248)"
  by (simp add: str_eval num_eval)

lemma ToNumber_45: "ToNumber ''45'' = Fin False 45"
  by (simp add: str_eval num_eval)

lemma quotient_under:
  "js_div (Fin False 45)
     (js_mul (Fin False (3602879701896397 / 2251799813685248))
             (Fin False (3602879701896397 / 2251799813685248)))
   = Fin False (4947802324991999 / 281474976710656)"
  by (simp add: num_eval)

lemma toFixed2_under: "toFixed2 (Fin False (4947802324991999 / 281474976710656)) = ''17.58''"
  by (simp add: fix_eval)

lemma ToNumber_17_58: "ToNumber ''17.58'' = Fin False (1237082522643333 / 70368744177664)"
  by (simp add: str_eval num_eval)

lemma category_17_58: "category ''17.58'' = ''Underweight''"
  by (simp add: category_def ToNumber_17_58 lit_eval)

lemma scenario_under:
  "calculateBMI \<lparr>height = ''1.60'', weight = ''45'', bmi = b, message = m, darkMode = d\<rparr>
   = \<lparr>height = ''1.60'', weight = ''45'', bmi = Some ''17.58'', message = ''Underweight'',
      darkMode = d\<rparr>"
  by (simp add: calculateBMI_def ToNumber_1_60 ToNumber_45 quotient_under toFixed2_under
      category_17_58 del: js_mul.simps js_div.simps)

lemma ToNumber_1_80: "ToNumber ''1.80'' = Fin False (8106479329266893 / 4503599627370496)"
  by (simp add: str_eval num_eval)

lemma ToNumber_100: "ToNumber ''100'' = Fin False 100"
  by (simp add: str_eval num_eval)

lemma quotient_obese:
  "js_div (Fin False 100)
     (js_mul (Fin False (8106479329266893 / 4503599627370496))
             (Fin False (8106479329266893 / 4503599627370496)))
   = Fin False (4343749640596543 / 140737488355328)"
  by (simp add: num_eval)

lemma toFixed2_obese: "toFixed2 (Fin False (4343749640596543 / 140737488355328)) = ''30.86''"
  by (simp add: fix_eval)

lemma ToNumber_30_86: "ToNumber ''30.86'' = Fin False (2171579445322711 / 70368744177664)"
  by (simp add: str_eval num_eval)

lemma category_30_86: "category ''30.86'' = ''Obese''"
  by (simp add: category_def ToNumber_30_86 lit_eval)

lemma scenario_obese:
  "calculateBMI \<lparr>height = ''1.80'', weight = ''100'', bmi = b, message = m, darkMode = d\<rparr>
   = \<lparr>height = ''1.80'', weight = ''100'', bmi = Some ''30.86'', message = ''Obese'',
      darkMode = d\<rparr>"
  by (simp add: calculateBMI_def ToNumber_1_80 ToNumber_100 quotient_obese toFixed2_obese
      category_30_86 del: js_mul.simps js_div.simps)

lemma ToNumber_24_90: "ToNumber ''24.90'' = Fin False (3504363460047667 / 140737488355328)"
  by (simp add: str_eval num_eval)

lemma ToNumber_29_90: "ToNumber ''29.90'' = Fin False (4208050901824307 / 140737488355328)"
  by (simp add: str_eval num_eval)

text \<open>The strings that Number::toString gives for the values that are not finite.\<close>

lemma ToNumber_NaN: "ToNumber ''NaN'' = NaN"
  by (simp add: str_eval)

lemma ToNumber_Infinity: "ToNumber ''Infinity'' = Inf False"
  by (simp add: str_eval)

lemma ToNumber_0: "ToNumber ''0'' = Fin False 0"
  by (simp add: str_eval num_eval)

section \<open>Decimal digits\<close>

lemma digit_cases: "0 \<le> d \<Longrightarrow> d < 10 \<Longrightarrow>
  d = 0 \<or> d = 1 \<or> d = 2 \<or> d = 3 \<or> d = 4 \<or> d = 5 \<or> d = 6 \<or> d = 7 \<or> d = 8 \<or> d = (9::int)"
  by arith

lemma digit_char_is_digit:
  assumes "0 \<le> d" "d < 10"
  shows "is_digit (digit_char d)"
  using digit_cases [OF assms] by (elim disjE) (simp_all add: is_digit_def digit_char_def)

lemma digit_of_digit_char:
  assumes "0 \<le> d" "d < 10"
  shows "digit_of (digit_char d) = Some d"
  using digit_cases [OF assms] by (elim disjE) (simp_all add: digit_of_def digit_char_def)

lemma dec_value_snoc:
  "dec_value (ds @ [c]) = dec_value ds * 10 + (case digit_of c of Some d \<Rightarrow> d | None \<Rightarrow> 0)"
  by (simp add: dec_value_def)

lemma dec_digits_not_empty: "dec_digits n \<noteq> []"
  by (subst dec_digits.simps) simp

lemma dec_digits_all_digits: "0 \<le> n \<Longrightarrow> list_all is_digit (dec_digits n)"
proof (induction n rule: dec_digits.induct)
  case (1 n)
  show ?case
  proof (cases "n < 10")
    case True
    with "1.prems" show ?thesis by (simp add: dec_digits_small [of n] digit_char_is_digit)
  next
    case False
    with "1.prems" "1.IH" show ?thesis
      by (simp add: dec_digits_large [of n] digit_char_is_digit)
  qed
qed

lemma dec_value_dec_digits: "0 \<le> n \<Longrightarrow> dec_value (dec_digits n) = n"
proof (induction n rule: dec_digits.induct)
  case (1 n)
  show ?case
  proof (cases "n < 10")
    case True
    with "1.prems" show ?thesis
      by (simp add: dec_digits_small [of n] dec_value_def digit_of_digit_char)
  next
    case False
    with "1.prems" "1.IH" show ?thesis
      by (simp add: dec_digits_large [of n] dec_value_snoc digit_of_digit_char)
  qed
qed

lemma dec_digits_two:
  assumes "10 \<le> n" "n < 100"
  shows "dec_digits n = [digit_char (n div 10), digit_char (n mod 10)]"
  using assms by (simp add: dec_digits_large [of n] dec_digits_small [of "n div 10"])

lemma dec_digits_hundreds:
  assumes "100 \<le> n"
  shows "dec_digits n = dec_digits (n div 100) @ [digit_char (n div 10 mod 10), digit_char (n mod 10)]"
proof -
  have "dec_digits n = dec_digits (n div 10) @ [digit_char (n mod 10)]"
    using assms by (simp add: dec_digits_large [of n])
  moreover have "dec_digits (n div 10) = dec_digits (n div 10 div 10) @ [digit_char (n div 10 mod 10)]"
    using assms by (simp add: dec_digits_large [of "n div 10"])
  moreover have "n div 10 div 10 = n div 100"
    by (simp add: div_mult2_eq [symmetric])
  ultimately show ?thesis by simp
qed

text \<open>The fixed-point branch of \<^verbatim>\<open>toFixed(2)\<close>, for a magnitude below \<open>10^21\<close>.\<close>

lemma toFixed2_shape:
  assumes x0: "0 \<le> x" and x1: "x < 10 ^ 21" and n: "n = \<lfloor>x * 100 + 1 / 2\<rfloor>"
  shows "toFixed2 (Fin False x)
         = dec_digits (n div 100) @ ''.'' @ [digit_char (n div 10 mod 10), digit_char (n mod 10)]"
proof -
  let ?m = "if n = 0 then ''0'' else dec_digits n"
  let ?m' = "if length ?m \<le> 2 then replicate (3 - length ?m) CHR ''0'' @ ?m else ?m"
  have tf: "toFixed2 (Fin False x) = take (length ?m' - 2) ?m' @ ''.'' @ drop (length ?m' - 2) ?m'"
    using x1 unfolding toFixed2_def n by (simp add: Let_def)
  have n0: "0 \<le> n" using x0 n by simp
  consider "n = 0" | "0 < n" "n < 10" | "10 \<le> n" "n < 100" | "100 \<le> n"
    using n0 by linarith
  then have "take (length ?m' - 2) ?m' @ ''.'' @ drop (length ?m' - 2) ?m'
      = dec_digits (n div 100) @ ''.'' @ [digit_char (n div 10 mod 10), digit_char (n mod 10)]"
  proof cases
    case 1
    then show ?thesis
      by (simp add: dec_digits_small [of 0] digit_char_def)
  next
    case 2
    then show ?thesis
      by (simp add: dec_digits_small [of n] dec_digits_small [of 0] digit_char_def)
  next
    case 3
    then show ?thesis
      by (simp add: dec_digits_two [of n] dec_digits_small [of 0] digit_char_def)
  next
    case 4
    have h: "dec_digits n
        = dec_digits (n div 100) @ [digit_char (n div 10 mod 10), digit_char (n mod 10)]"
      using 4 by (rule dec_digits_hundreds)
    have len: "\<not> length (dec_digits n) \<le> 2"
      using dec_digits_not_empty [of "n div 100"] by (simp add: h Suc_le_eq)
    have "?m' = dec_digits n" using 4 len by simp
    then show ?thesis by (simp add: h)
  qed
  with tf show ?thesis by simp
qed

lemma not_digit_point: "\<not> is_digit CHR ''.''"
  by (simp add: is_digit_def)

lemma takeWhile_digits_point:
  "list_all is_digit ds \<Longrightarrow> takeWhile is_digit (ds @ CHR ''.'' # r) = ds"
  by (induction ds) (simp_all add: not_digit_point)

lemma dropWhile_digits_point:
  "list_all is_digit ds \<Longrightarrow> dropWhile is_digit (ds @ CHR ''.'' # r) = CHR ''.'' # r"
  by (induction ds) (simp_all add: not_digit_point)

lemma fixed2_string:
  assumes "0 \<le> n"
  defines "b \<equiv> dec_digits (n div 100) @ ''.'' @ [digit_char (n div 10 mod 10), digit_char (n mod 10)]"
  shows "is_fixed2 b" and "fixed2_value b = of_int n / 100"
proof -
  have d: "list_all is_digit (dec_digits (n div 100))"
    using assms(1) by (simp add: dec_digits_all_digits pos_imp_zdiv_nonneg_iff)
  have tw: "takeWhile is_digit b = dec_digits (n div 100)"
    and dw: "dropWhile is_digit b = CHR ''.'' # [digit_char (n div 10 mod 10), digit_char (n mod 10)]"
    unfolding b_def using d by (simp_all add: takeWhile_digits_point dropWhile_digits_point)
  have t': "is_digit (digit_char (n div 10 mod 10))"
    by (rule digit_char_is_digit) simp_all
  have u': "is_digit (digit_char (n mod 10))"
    by (rule digit_char_is_digit) simp_all
  show "is_fixed2 b"
    by (simp add: is_fixed2_def tw dw dec_digits_not_empty t' u')
  have t: "digit_of (digit_char (n div 10 mod 10)) = Some (n div 10 mod 10)"
    by (rule digit_of_digit_char) simp_all
  have u: "digit_of (digit_char (n mod 10)) = Some (n mod 10)"
    by (rule digit_of_digit_char) simp_all
  have "dec_value [digit_char (n div 10 mod 10), digit_char (n mod 10)]
        = (n div 10 mod 10) * 10 + n mod 10"
    by (simp add: dec_value_def t u)
  moreover have "(n div 10 mod 10) * 10 + n mod 10 = n mod 100"
    using zmod_zmult2_eq [of 10 n 10] by simp
  moreover have "dec_value (dec_digits (n div 100)) = n div 100"
    using assms(1) by (simp add: dec_value_dec_digits pos_imp_zdiv_nonneg_iff)
  ultimately have "fixed2_value b = of_int (n div 100) + of_int (n mod 100) / 100"
    by (simp add: fixed2_value_def tw dw)
  moreover have "(of_int (n div 100 * 100 + n mod 100) :: rat)
      = of_int (n div 100) * 100 + of_int (n mod 100)"
    by (simp only: of_int_add of_int_mult of_int_numeral)
  then have "(of_int n :: rat) = of_int (n div 100) * 100 + of_int (n mod 100)"
    by (simp only: div_mult_mod_eq)
  ultimately show "fixed2_value b = of_int n / 100"
    by (simp add: add_divide_distrib)
qed

section \<open>Rounding to binary64\<close>

lemma round_half_even_nonneg: "0 \<le> x \<Longrightarrow> 0 \<le> round_half_even x"
  by (simp add: round_half_even_def Let_def)

lemma pow2_pos: "0 < pow2 e"
  by (simp add: pow2_def)

lemma pow2_powi: "pow2 e = 2 powi e"
  by (simp add: pow2_def power_int_def power_inverse inverse_eq_divide power_one_over)

lemma pow2_add: "pow2 (a + b) = pow2 a * pow2 b"
  by (simp add: pow2_powi power_int_add)

lemma pow2_mono: "a \<le> b \<Longrightarrow> pow2 a \<le> pow2 b"
  by (simp add: pow2_powi power_int_increasing)

lemma pow2_nat: "0 \<le> e \<Longrightarrow> pow2 e = of_int (2 ^ nat e)"
  by (simp add: pow2_def)

lemma bitlen_bounds:
  "0 < n \<Longrightarrow> 1 \<le> bitlen n \<and> 2 ^ nat (bitlen n - 1) \<le> n \<and> n < 2 ^ nat (bitlen n)"
proof (induction n rule: bitlen.induct)
  case (1 n)
  show ?case
  proof (cases "n = 1")
    case True
    then show ?thesis by (simp add: bitlen_pos bitlen_le0)
  next
    case False
    with "1.prems" have h: "0 < n div 2" by simp
    define k where "k = bitlen (n div 2)"
    from "1.IH" [OF _ h] "1.prems"
    have ih: "1 \<le> k" "2 ^ nat (k - 1) \<le> n div 2" "n div 2 < 2 ^ nat k"
      by (simp_all add: k_def)
    have bl: "bitlen n = 1 + k"
      using "1.prems" by (simp add: bitlen_pos [of n] k_def)
    have p: "(2::int) ^ nat k = 2 * 2 ^ nat (k - 1)"
      using ih(1) by (simp add: nat_diff_distrib flip: power_Suc)
    have "2 ^ nat k \<le> n"
      using ih(2) p by linarith
    moreover have "n < 2 * 2 ^ nat k"
      using ih(3) by linarith
    moreover have "(2::int) ^ nat (1 + k) = 2 * 2 ^ nat k"
      using ih(1) by (simp add: nat_add_distrib)
    ultimately show ?thesis
      using ih(1) by (simp add: bl)
  qed
qed

lemma bitlen_pow2_bounds:
  assumes "0 < n"
  shows "pow2 (bitlen n - 1) \<le> of_int n" and "of_int n < pow2 (bitlen n)"
proof -
  from bitlen_bounds [OF assms]
  have b: "1 \<le> bitlen n" "2 ^ nat (bitlen n - 1) \<le> n" "n < 2 ^ nat (bitlen n)"
    by simp_all
  have "pow2 (bitlen n - 1) = of_int (2 ^ nat (bitlen n - 1))"
    using b(1) by (intro pow2_nat) simp
  also have "\<dots> \<le> of_int n"
    using b(2) by (simp only: of_int_le_iff)
  finally show "pow2 (bitlen n - 1) \<le> of_int n" .
  have "(of_int n :: rat) < of_int (2 ^ nat (bitlen n))"
    using b(3) by (simp only: of_int_less_iff)
  also have "\<dots> = pow2 (bitlen n)"
    using b(1) by (intro pow2_nat [symmetric]) simp
  finally show "of_int n < pow2 (bitlen n)" .
qed

lemma floor_log2_bounds:
  assumes "0 < q"
  shows "pow2 (floor_log2 q) \<le> q" and "q < pow2 (floor_log2 q + 1)"
proof -
  have "pow2 (floor_log2 q) \<le> q \<and> q < pow2 (floor_log2 q + 1)"
  proof (cases "1 \<le> q")
    case True
    then have f: "0 < \<lfloor>q\<rfloor>" by simp
    have "pow2 (bitlen \<lfloor>q\<rfloor> - 1) \<le> of_int \<lfloor>q\<rfloor>"
      using f by (rule bitlen_pow2_bounds)
    also have "\<dots> \<le> q" by simp
    finally have lo: "pow2 (bitlen \<lfloor>q\<rfloor> - 1) \<le> q" .
    have "of_int \<lfloor>q\<rfloor> + 1 \<le> pow2 (bitlen \<lfloor>q\<rfloor>)"
    proof -
      from bitlen_bounds [OF f] have "\<lfloor>q\<rfloor> + 1 \<le> 2 ^ nat (bitlen \<lfloor>q\<rfloor>)" "1 \<le> bitlen \<lfloor>q\<rfloor>"
        by simp_all
      then have "(of_int (\<lfloor>q\<rfloor> + 1) :: rat) \<le> of_int (2 ^ nat (bitlen \<lfloor>q\<rfloor>))"
        by (simp only: of_int_le_iff)
      also have "\<dots> = pow2 (bitlen \<lfloor>q\<rfloor>)"
        using \<open>1 \<le> bitlen \<lfloor>q\<rfloor>\<close> by (intro pow2_nat [symmetric]) simp
      finally show ?thesis by simp
    qed
    moreover have "q < of_int \<lfloor>q\<rfloor> + 1" by linarith
    ultimately have "q < pow2 (bitlen \<lfloor>q\<rfloor>)" by linarith
    with lo True show ?thesis by (simp add: floor_log2_def)
  next
    case False
    define m where "m = bitlen \<lfloor>1 / q\<rfloor> - 1"
    from False assms have "1 < 1 / q" by simp
    then have f: "0 < \<lfloor>1 / q\<rfloor>" by simp
    have "pow2 m \<le> of_int \<lfloor>1 / q\<rfloor>"
      unfolding m_def using f by (rule bitlen_pow2_bounds)
    also have "\<dots> \<le> 1 / q" by simp
    finally have a: "pow2 m \<le> 1 / q" .
    have "of_int \<lfloor>1 / q\<rfloor> + 1 \<le> pow2 (m + 1)"
    proof -
      from bitlen_bounds [OF f]
      have "\<lfloor>1 / q\<rfloor> + 1 \<le> 2 ^ nat (bitlen \<lfloor>1 / q\<rfloor>)" "1 \<le> bitlen \<lfloor>1 / q\<rfloor>"
        by simp_all
      then have "(of_int (\<lfloor>1 / q\<rfloor> + 1) :: rat) \<le> of_int (2 ^ nat (bitlen \<lfloor>1 / q\<rfloor>))"
        by (simp only: of_int_le_iff)
      also have "\<dots> = pow2 (bitlen \<lfloor>1 / q\<rfloor>)"
        using \<open>1 \<le> bitlen \<lfloor>1 / q\<rfloor>\<close> by (intro pow2_nat [symmetric]) simp
      finally show ?thesis by (simp add: m_def)
    qed
    moreover have "1 / q < of_int \<lfloor>1 / q\<rfloor> + 1" by linarith
    ultimately have b: "1 / q < pow2 (m + 1)" by linarith
    have pm: "0 < pow2 m" "0 < pow2 (m + 1)" by (simp_all add: pow2_powi)
    have inv: "pow2 (- m) * pow2 m = 1" "pow2 (- m - 1) * pow2 (m + 1) = 1"
      by (simp_all flip: pow2_add) (simp_all add: pow2_def)
    from a assms pm have a': "q * pow2 m \<le> 1"
      by (simp add: field_simps)
    from b assms pm have b': "1 < q * pow2 (m + 1)"
      by (simp add: field_simps)
    have lo: "pow2 (- m - 1) < q"
    proof -
      have "pow2 (- m - 1) * pow2 (m + 1) < q * pow2 (m + 1)"
        using b' inv(2) by simp
      then show ?thesis using pm(2) by simp
    qed
    have hi: "q \<le> pow2 (- m)"
    proof -
      have "q * pow2 m \<le> pow2 (- m) * pow2 m"
        using a' inv(1) by simp
      then show ?thesis using pm(1) by simp
    qed
    have fl: "floor_log2 q = (if q * pow2 m = 1 then - m else - m - 1)"
      using False by (simp add: floor_log2_def Let_def m_def)
    show ?thesis
    proof (cases "q * pow2 m = 1")
      case True
      then have "q * pow2 m = pow2 (- m) * pow2 m"
        using inv(1) by simp
      then have "q = pow2 (- m)"
        using pm(1) by simp
      moreover have "pow2 (- m) < pow2 (- m + 1)"
        by (simp add: pow2_powi power_int_strict_increasing)
      moreover have "floor_log2 q = - m"
        using True fl by simp
      ultimately show ?thesis by simp
    next
      case neq: False
      have "q \<noteq> pow2 (- m)"
        using neq inv(1) by auto
      with hi have "q < pow2 (- m)" by simp
      moreover have "floor_log2 q = - m - 1"
        using neq fl by simp
      ultimately show ?thesis
        using lo by simp
    qed
  qed
  then show "pow2 (floor_log2 q) \<le> q" and "q < pow2 (floor_log2 q + 1)"
    by simp_all
qed

lemma floor_log2_mono:
  assumes "0 < x" "x \<le> y"
  shows "floor_log2 x \<le> floor_log2 y"
proof (rule ccontr)
  assume "\<not> floor_log2 x \<le> floor_log2 y"
  then have "floor_log2 y + 1 \<le> floor_log2 x" by simp
  then have "pow2 (floor_log2 y + 1) \<le> pow2 (floor_log2 x)" by (rule pow2_mono)
  moreover have "pow2 (floor_log2 x) \<le> x"
    using assms(1) by (rule floor_log2_bounds)
  moreover have "y < pow2 (floor_log2 y + 1)"
    using assms by (intro floor_log2_bounds) simp
  ultimately show False using assms(2) by linarith
qed

lemma round_half_even_cases:
  "round_half_even x = \<lfloor>x\<rfloor> \<or> round_half_even x = \<lfloor>x\<rfloor> + 1"
  by (simp add: round_half_even_def Let_def)

lemma round_half_even_mono:
  assumes "x \<le> y"
  shows "round_half_even x \<le> round_half_even y"
proof (cases "\<lfloor>x\<rfloor> = \<lfloor>y\<rfloor>")
  case True
  with assms have "x - of_int \<lfloor>x\<rfloor> \<le> y - of_int \<lfloor>y\<rfloor>" by simp
  with True show ?thesis
    by (auto simp: round_half_even_def Let_def)
next
  case False
  with assms have "\<lfloor>x\<rfloor> + 1 \<le> \<lfloor>y\<rfloor>"
    using floor_mono [OF assms] by linarith
  moreover have "round_half_even x \<le> \<lfloor>x\<rfloor> + 1"
    using round_half_even_cases [of x] by linarith
  moreover have "\<lfloor>y\<rfloor> \<le> round_half_even y"
    using round_half_even_cases [of y] by linarith
  ultimately show ?thesis by linarith
qed

lemma round_half_even_of_int: "round_half_even (of_int k) = k"
  by (simp add: round_half_even_def)

text \<open>The finite value that the rounding reaches before the overflow check.\<close>

lemma to_double_value:
  assumes "q \<noteq> 0"
  shows "to_double sg q =
     (let r = of_int (round_half_even (q / pow2 (max (floor_log2 q) (- 1022) - 52)))
              * pow2 (max (floor_log2 q) (- 1022) - 52)
      in if pow2 1024 \<le> r then Inf sg else Fin sg r)"
  using assms by (simp add: to_double_def Let_def)

lemma rounded_mono:
  assumes "0 < x" "x \<le> y"
  defines "ex \<equiv> max (floor_log2 x) (- 1022)" and "ey \<equiv> max (floor_log2 y) (- 1022)"
  shows "of_int (round_half_even (x / pow2 (ex - 52))) * pow2 (ex - 52)
         \<le> (of_int (round_half_even (y / pow2 (ey - 52))) * pow2 (ey - 52) :: rat)"
proof -
  have y0: "0 < y" using assms by simp
  have le: "ex \<le> ey"
    unfolding ex_def ey_def using floor_log2_mono [OF assms(1,2)] by simp
  show ?thesis
  proof (cases "ex = ey")
    case True
    have "x / pow2 (ey - 52) \<le> y / pow2 (ey - 52)"
      using assms(2) pow2_pos [of "ey - 52"] by (simp add: divide_right_mono)
    then have "round_half_even (x / pow2 (ey - 52)) \<le> round_half_even (y / pow2 (ey - 52))"
      by (rule round_half_even_mono)
    then have "(of_int (round_half_even (x / pow2 (ey - 52))) :: rat)
        \<le> of_int (round_half_even (y / pow2 (ey - 52)))"
      by (simp only: of_int_le_iff)
    then show ?thesis
      using pow2_pos [of "ey - 52"] by (simp add: True mult_right_mono)
  next
    case False
    with le have lt: "ex + 1 \<le> ey" by simp
    then have eyfl: "ey = floor_log2 y"
      unfolding ex_def ey_def by simp
    have c53: "pow2 53 = of_int (2 ^ 53)" and c52: "pow2 52 = of_int (2 ^ 52)"
      by (simp_all add: pow2_def)
    have "pow2 (ex + 1) = pow2 (53 + (ex - 52))" and "pow2 ey = pow2 (52 + (ey - 52))"
      by (rule arg_cong [where f = pow2], simp)+
    then have p53: "pow2 (ex + 1) = of_int (2 ^ 53) * pow2 (ex - 52)"
      and p52: "pow2 ey = of_int (2 ^ 52) * pow2 (ey - 52)"
      by (simp_all only: pow2_add c53 c52)
    have "x < pow2 (floor_log2 x + 1)"
      using assms(1) by (rule floor_log2_bounds)
    also have "\<dots> \<le> pow2 (ex + 1)"
      unfolding ex_def by (rule pow2_mono) simp
    finally have "x < of_int (2 ^ 53) * pow2 (ex - 52)"
      by (simp only: p53)
    then have "x / pow2 (ex - 52) < of_int (2 ^ 53)"
      by (simp only: pos_divide_less_eq [OF pow2_pos])
    then have "x / pow2 (ex - 52) \<le> of_int (2 ^ 53)"
      by (rule less_imp_le)
    then have "round_half_even (x / pow2 (ex - 52)) \<le> round_half_even (of_int (2 ^ 53))"
      by (rule round_half_even_mono)
    then have "(of_int (round_half_even (x / pow2 (ex - 52))) :: rat) \<le> of_int (2 ^ 53)"
      by (simp only: round_half_even_of_int of_int_le_iff)
    then have a: "of_int (round_half_even (x / pow2 (ex - 52))) * pow2 (ex - 52) \<le> pow2 (ex + 1)"
      using pow2_pos [of "ex - 52"] unfolding p53 by (intro mult_right_mono) simp_all
    have "pow2 ey \<le> y"
      unfolding eyfl using y0 by (rule floor_log2_bounds)
    then have "of_int (2 ^ 52) * pow2 (ey - 52) \<le> y"
      by (simp only: p52)
    then have "of_int (2 ^ 52) \<le> y / pow2 (ey - 52)"
      by (simp only: pos_le_divide_eq [OF pow2_pos])
    then have "round_half_even (of_int (2 ^ 52)) \<le> round_half_even (y / pow2 (ey - 52))"
      by (rule round_half_even_mono)
    then have "(of_int (2 ^ 52) :: rat) \<le> of_int (round_half_even (y / pow2 (ey - 52)))"
      by (simp only: round_half_even_of_int of_int_le_iff)
    then have b: "pow2 ey \<le> of_int (round_half_even (y / pow2 (ey - 52))) * pow2 (ey - 52)"
      using pow2_pos [of "ey - 52"] unfolding p52 by (intro mult_right_mono) simp_all
    have "pow2 (ex + 1) \<le> pow2 ey"
      using lt by (rule pow2_mono)
    with a b show ?thesis by linarith
  qed
qed

lemma to_double_nonneg':
  assumes "0 \<le> q"
  shows "js_le (Fin False 0) (to_double False q)"
proof (cases "q = 0")
  case True
  then show ?thesis by (simp add: to_double_def rval_def)
next
  case False
  have "0 \<le> of_int (round_half_even (q / pow2 (max (floor_log2 q) (- 1022) - 52)))
          * pow2 (max (floor_log2 q) (- 1022) - 52)"
    using assms pow2_pos [of "max (floor_log2 q) (- 1022) - 52"]
    by (intro mult_nonneg_nonneg) (simp_all add: round_half_even_nonneg)
  then show ?thesis
    by (simp add: to_double_value [OF False] Let_def rval_def)
qed

text \<open>Rounding to binary64 keeps the order of the exact values.\<close>

lemma to_double_mono:
  assumes "0 \<le> x" "x \<le> y"
  shows "js_le (to_double False x) (to_double False y)"
proof (cases "x = 0")
  case True
  with assms to_double_nonneg' [of y] show ?thesis
    by (simp add: to_double_def)
next
  case False
  with assms have x0: "0 < x" and y0: "y \<noteq> 0" by simp_all
  from rounded_mono [OF x0 assms(2)] show ?thesis
    by (simp add: to_double_value [OF False] to_double_value [OF y0] Let_def rval_def)
qed

lemma to_double_not_NaN: "to_double sg q \<noteq> NaN"
  by (simp add: to_double_def Let_def)

lemma to_double_sign: "to_double sg q = Fin sg' r \<Longrightarrow> sg' = sg"
  by (simp add: to_double_def Let_def split: if_splits)

lemma to_double_Inf_sign: "to_double sg q = Inf sg' \<Longrightarrow> sg' = sg"
  by (simp add: to_double_def Let_def split: if_splits)

lemma to_double_nonneg:
  assumes "0 \<le> q" and "to_double sg q = Fin sg' r"
  shows "0 \<le> r"
proof (cases "q = 0")
  case True
  with assms show ?thesis by (simp add: to_double_def)
next
  case False
  define u where "u = pow2 (max (floor_log2 q) (- 1022) - 52)"
  have "0 < u" by (simp add: u_def pow2_pos)
  with assms(1) have "0 \<le> round_half_even (q / u)"
    by (intro round_half_even_nonneg) simp
  with \<open>0 < u\<close> have "0 \<le> of_int (round_half_even (q / u)) * u" by simp
  moreover from False assms(2) have "r = of_int (round_half_even (q / u)) * u"
    by (simp add: to_double_def Let_def u_def split: if_splits)
  ultimately show ?thesis by simp
qed

lemma quotient_positive_inputs:
  assumes "0 < h" "0 < w"
    and "js_div (Fin False w) (js_mul (Fin False h) (Fin False h)) = Fin sg q"
  shows "sg = False \<and> 0 \<le> q"
proof (cases "to_double False (h * h)")
  case NaN
  then show ?thesis by (simp add: to_double_not_NaN)
next
  case (Inf t)
  then have "t = False" by (rule to_double_Inf_sign)
  with assms Inf show ?thesis by simp
next
  case (Fin t y)
  have y: "0 \<le> y" using to_double_nonneg [OF _ Fin] assms(1) by simp
  show ?thesis
  proof (cases "y = 0")
    case True
    with assms Fin show ?thesis by simp
  next
    case False
    with assms Fin have d: "to_double (False \<noteq> t) (w / y) = Fin sg q" by simp
    from Fin have "t = False" by (rule to_double_sign)
    with d have "sg = False" using to_double_sign [OF d] by simp
    moreover have "0 \<le> q" using to_double_nonneg [OF _ d] y assms(2) by simp
    ultimately show ?thesis by simp
  qed
qed


section \<open>Comparisons and the ladder\<close>

lemma js_le_not_lt: "js_le a b \<Longrightarrow> \<not> js_lt b a"
  by (cases a; cases b) (auto simp: rval_def)

lemma js_le_less_trans:
  "js_le a (Fin False c) \<Longrightarrow> c < d \<Longrightarrow> js_lt a (Fin False d)"
  by (cases a) (auto simp: rval_def)

lemma digit_not_space: "is_digit c \<Longrightarrow> \<not> StrWhiteSpaceChar c"
  by (auto simp: is_digit_def StrWhiteSpaceChar_def)

lemma digit_not_prefix:
  "is_digit c \<or> c = CHR ''.'' \<Longrightarrow>
   c \<notin> set [CHR ''x'', CHR ''X'', CHR ''o'', CHR ''O'', CHR ''b'', CHR ''B'']"
  by (auto simp: is_digit_def)

lemma digit_not_sign: "is_digit c \<Longrightarrow> c \<noteq> CHR ''-'' \<and> c \<noteq> CHR ''+'' \<and> c \<noteq> CHR ''I''"
  by (auto simp: is_digit_def)

lemma digit_of_nonneg: "digit_of c = Some d \<Longrightarrow> 0 \<le> d"
  by (auto simp: digit_of_def split: if_splits)

lemma foldl_digits_nonneg:
  "0 \<le> acc \<Longrightarrow>
   0 \<le> foldl (\<lambda>acc c. acc * 10 + (case digit_of c of Some d \<Rightarrow> d | None \<Rightarrow> 0)) acc ds"
proof (induction ds arbitrary: acc)
  case Nil
  then show ?case by simp
next
  case (Cons c ds)
  have "0 \<le> (case digit_of c of Some d \<Rightarrow> d | None \<Rightarrow> 0)"
    by (auto split: option.splits dest: digit_of_nonneg)
  with Cons.prems have "0 \<le> acc * 10 + (case digit_of c of Some d \<Rightarrow> d | None \<Rightarrow> 0)"
    by simp
  then show ?case by (simp add: Cons.IH)
qed

lemma dec_value_nonneg: "0 \<le> dec_value ds"
  unfolding dec_value_def by (rule foldl_digits_nonneg) simp

text \<open>The shape of a string with two decimal digits.\<close>

lemma is_fixed2_shape:
  assumes "is_fixed2 b"
  obtains ip f1 f2 where "b = ip @ CHR ''.'' # [f1, f2]" "ip \<noteq> []" "list_all is_digit ip"
    "is_digit f1" "is_digit f2"
proof -
  define ip where "ip = takeWhile is_digit b"
  define r where "r = dropWhile is_digit b"
  from assms have h: "ip \<noteq> []" "r \<noteq> []" "hd r = CHR ''.''" "length (tl r) = 2"
    "list_all is_digit (tl r)"
    by (simp_all add: is_fixed2_def Let_def ip_def r_def)
  from h(4) obtain f1 f2 where f: "tl r = [f1, f2]"
    by (cases "tl r"; cases "tl (tl r)") auto
  with h(2,3) have r: "r = CHR ''.'' # [f1, f2]"
    by (cases r) auto
  have "b = ip @ r" by (simp add: ip_def r_def)
  moreover have "list_all is_digit ip"
    unfolding ip_def list_all_iff using set_takeWhileD by fast
  moreover from h(5) f have "is_digit f1" "is_digit f2" by simp_all
  ultimately show thesis using that h(1) r by simp
qed

lemma ToNumber_fixed2:
  assumes "is_fixed2 b"
  shows "ToNumber b = to_double False (fixed2_value b)"
proof -
  from assms obtain ip f1 f2 where b: "b = ip @ CHR ''.'' # [f1, f2]" and ip: "ip \<noteq> []"
    and d: "list_all is_digit ip" "is_digit f1" "is_digit f2"
    by (rule is_fixed2_shape)
  from ip obtain c cs where ipc: "ip = c # cs" by (cases ip) auto
  with d have c: "is_digit c" by simp
  have tw: "takeWhile is_digit b = ip" and dw: "dropWhile is_digit b = CHR ''.'' # [f1, f2]"
    unfolding b using d(1) by (rule takeWhile_digits_point, rule dropWhile_digits_point)
  have "dropWhile StrWhiteSpaceChar b = b"
    using c by (simp add: b ipc digit_not_space)
  moreover have "dropWhile StrWhiteSpaceChar (rev b) = rev b"
    using d(3) by (simp add: b digit_not_space)
  ultimately have trim: "trim b = b"
    by (simp add: trim_def)
  have second: "is_digit (hd (tl b)) \<or> hd (tl b) = CHR ''.''"
    using d(1) by (cases cs) (simp_all add: b ipc)
  have nd: "non_decimal b = None"
  proof -
    obtain p ds where "b = c # p # ds" by (cases cs) (simp_all add: b ipc)
    with second digit_not_prefix [of p] show ?thesis by auto
  qed
  have sign: "split_sign b = (False, b)"
    using digit_not_sign [OF c] by (simp add: b ipc)
  have inf: "b \<noteq> ''Infinity''"
    using digit_not_sign [OF c] by (simp add: b ipc)
  have ud: "unsigned_decimal b = Some (fixed2_value b)"
    using ip d(2,3) by (simp add: unsigned_decimal_def fixed2_value_def tw dw Let_def pow10_def)
  have "b \<noteq> []" by (simp add: b)
  then show ?thesis
    by (simp add: ToNumber_def trim nd sign inf ud)
qed

lemma fixed2_value_hundredths:
  assumes "is_fixed2 b"
  obtains n where "0 \<le> n" "fixed2_value b = of_int n / 100"
proof -
  define n where "n = dec_value (takeWhile is_digit b) * 100
                      + dec_value (tl (dropWhile is_digit b))"
  have "0 \<le> n"
    unfolding n_def by (intro add_nonneg_nonneg mult_nonneg_nonneg dec_value_nonneg) simp
  moreover have "fixed2_value b = of_int n / 100"
    by (simp add: fixed2_value_def n_def add_divide_distrib)
  ultimately show thesis by (rule that)
qed

lemma to_double_18_49: "to_double False (1849 / 100) = Fin False (5204472319380029 / 281474976710656)"
  by (simp add: num_eval)

lemma to_double_24_89: "to_double False (2489 / 100) = Fin False (1751478042582057 / 70368744177664)"
  by (simp add: num_eval)

lemma to_double_29_89: "to_double False (2989 / 100) = Fin False (2103321763470377 / 70368744177664)"
  by (simp add: num_eval)

lemma threshold_exact:
  assumes "0 \<le> n"
    and lo: "to_double False (of_int (t - 1) / 100) = Fin False c"
    and hi: "to_double False (of_int t / 100) = Fin False d"
    and "c < d" and "0 \<le> t"
  shows "js_lt (to_double False (of_int n / 100)) (Fin False d) \<longleftrightarrow> n < t"
proof (cases "n < t")
  case True
  then have "n \<le> t - 1" by simp
  then have "(of_int n :: rat) \<le> of_int (t - 1)" by (simp only: of_int_le_iff)
  then have "(of_int n / 100 :: rat) \<le> of_int (t - 1) / 100" by simp
  moreover have "(0::rat) \<le> of_int n / 100" using assms(1) by simp
  ultimately have "js_le (to_double False (of_int n / 100)) (to_double False (of_int (t - 1) / 100))"
    by (intro to_double_mono)
  then have "js_lt (to_double False (of_int n / 100)) (Fin False d)"
    unfolding lo using \<open>c < d\<close> by (rule js_le_less_trans)
  with True show ?thesis by simp
next
  case False
  then have "(of_int t / 100 :: rat) \<le> of_int n / 100" by simp
  moreover have "(0::rat) \<le> of_int t / 100" using assms(5) by simp
  ultimately have "js_le (to_double False (of_int t / 100)) (to_double False (of_int n / 100))"
    by (intro to_double_mono)
  then have "\<not> js_lt (to_double False (of_int n / 100)) (Fin False d)"
    unfolding hi by (rule js_le_not_lt)
  with False show ?thesis by simp
qed

text \<open>
  On a string with two decimal digits, a comparison of the ladder decides as the exact
  decimal value does: no two-digit decimal rounds across a threshold.
\<close>

lemma ladder_exact:
  assumes "is_fixed2 b"
  shows "js_lt (ToNumber b) lit_18_5 \<longleftrightarrow> fixed2_value b < 185 / 10"
    and "js_lt (ToNumber b) lit_24_9 \<longleftrightarrow> fixed2_value b < 249 / 10"
    and "js_lt (ToNumber b) lit_29_9 \<longleftrightarrow> fixed2_value b < 299 / 10"
proof -
  from assms obtain n where n: "0 \<le> n" "fixed2_value b = of_int n / 100"
    by (rule fixed2_value_hundredths)
  have tn: "ToNumber b = to_double False (of_int n / 100)"
    using ToNumber_fixed2 [OF assms] n(2) by simp
  have e1: "to_double False (of_int 1850 / 100) = Fin False (37 / 2)"
    using lit_18_5_eq by (simp add: lit_18_5_def)
  have e2: "to_double False (of_int 2490 / 100) = Fin False (3504363460047667 / 140737488355328)"
    using lit_24_9_eq by (simp add: lit_24_9_def)
  have e3: "to_double False (of_int 2990 / 100) = Fin False (4208050901824307 / 140737488355328)"
    using lit_29_9_eq by (simp add: lit_29_9_def)
  have l1: "to_double False (of_int (1850 - 1) / 100)
            = Fin False (5204472319380029 / 281474976710656)"
    and l2: "to_double False (of_int (2490 - 1) / 100)
            = Fin False (1751478042582057 / 70368744177664)"
    and l3: "to_double False (of_int (2990 - 1) / 100)
            = Fin False (2103321763470377 / 70368744177664)"
    by (simp_all add: to_double_18_49 to_double_24_89 to_double_29_89)
  have "js_lt (ToNumber b) lit_18_5 \<longleftrightarrow> n < 1850"
    unfolding tn lit_18_5_eq
    by (rule threshold_exact [OF n(1) l1 e1]) simp_all
  then show "js_lt (ToNumber b) lit_18_5 \<longleftrightarrow> fixed2_value b < 185 / 10"
    by (simp add: n(2))
  have "js_lt (ToNumber b) lit_24_9 \<longleftrightarrow> n < 2490"
    unfolding tn lit_24_9_eq
    by (rule threshold_exact [OF n(1) l2 e2]) simp_all
  then show "js_lt (ToNumber b) lit_24_9 \<longleftrightarrow> fixed2_value b < 249 / 10"
    by (simp add: n(2))
  have "js_lt (ToNumber b) lit_29_9 \<longleftrightarrow> n < 2990"
    unfolding tn lit_29_9_eq
    by (rule threshold_exact [OF n(1) l3 e3]) simp_all
  then show "js_lt (ToNumber b) lit_29_9 \<longleftrightarrow> fixed2_value b < 299 / 10"
    by (simp add: n(2))
qed

lemma category_exact:
  assumes "is_fixed2 b"
  shows "category b =
     (if fixed2_value b < 185 / 10 then ''Underweight''
      else if fixed2_value b < 249 / 10 then ''Normal weight''
      else if fixed2_value b < 299 / 10 then ''Overweight''
      else ''Obese'')"
  by (simp only: category_def ladder_exact [OF assms])

lemma category_rows:
  "(js_lt (ToNumber b) lit_18_5 \<and> category b = ''Underweight'')
   \<or> (js_le lit_18_5 (ToNumber b) \<and> js_lt (ToNumber b) lit_24_9
       \<and> category b = ''Normal weight'')
   \<or> (js_le lit_24_9 (ToNumber b) \<and> js_lt (ToNumber b) lit_29_9
       \<and> category b = ''Overweight'')
   \<or> ((js_le lit_29_9 (ToNumber b) \<or> ToNumber b = NaN) \<and> category b = ''Obese'')"
  unfolding category_def lit_eval
  by (cases "ToNumber b") (auto simp: rval_def)

lemma toFixed2_not_empty: "toFixed2 v \<noteq> []"
  by (cases v) (simp_all add: toFixed2_def number_to_string_large_def Let_def)

lemma category_not_error: "category b \<noteq> ''Please enter valid height and weight''"
  by (simp add: category_def)

lemma run_snoc: "run (es @ [e]) = handle e (run es)"
  by (simp add: run_def)

lemma run_normal:
  "run [ChangeHeight ''1.75'', ChangeWeight ''70'', Submit]
   = \<lparr>height = ''1.75'', weight = ''70'', bmi = Some ''22.86'', message = ''Normal weight'',
      darkMode = False\<rparr>"
  by (simp add: run_def initial_state_def setHeight_def setWeight_def scenario_normal)

lemma run_invariant:
  "bmi (run es) = None \<or> message (run es) = ''Please enter valid height and weight''
   \<or> (\<exists>b. bmi (run es) = Some b \<and> message (run es) = category b)"
proof (induction es rule: rev_induct)
  case Nil
  show ?case by (simp add: run_def initial_state_def)
next
  case (snoc e es)
  show ?case
  proof (cases e)
    case (ChangeHeight v)
    with snoc show ?thesis by (simp add: run_snoc setHeight_def)
  next
    case (ChangeWeight v)
    with snoc show ?thesis by (simp add: run_snoc setWeight_def)
  next
    case Submit
    then show ?thesis by (simp add: run_snoc calculateBMI_def Let_def)
  next
    case Reset
    then show ?thesis by (simp add: run_snoc resetForm_def)
  next
    case ToggleTheme
    with snoc show ?thesis by (simp add: run_snoc toggleDarkMode_def)
  qed
qed

section \<open>The submit handler\<close>

text \<open>
  C1, as the code has it. For every submission with both inputs non-empty that ToNumber
  reads as a finite height \<open>h > 0\<close> and a finite weight \<open>w > 0\<close>: when the binary64
  quotient \<open>q\<close> that \<^verbatim>\<open>weight / (height * height)\<close> computes is finite and below \<open>10^21\<close>,
  the result is a string of digits, a point and exactly two digits, and it denotes
  \<open>\<lfloor>100 q + 1/2\<rfloor> / 100\<close>, the multiple of \<open>0.01\<close> nearest to \<open>q\<close> (the larger one at a
  tie), at most \<open>0.005\<close> away from \<open>q\<close>.
\<close>

theorem calculateBMI_fixed_point:
  assumes "height s \<noteq> []" and "weight s \<noteq> []"
    and "ToNumber (height s) = Fin False h" and "0 < h"
    and "ToNumber (weight s) = Fin False w" and "0 < w"
    and "js_div (ToNumber (weight s)) (js_mul (ToNumber (height s)) (ToNumber (height s)))
         = Fin sg q"
    and "q < 10 ^ 21"
  shows "\<exists>b. bmi (calculateBMI s) = Some b \<and> is_fixed2 b
           \<and> fixed2_value b = of_int \<lfloor>q * 100 + 1 / 2\<rfloor> / 100
           \<and> \<bar>fixed2_value b - q\<bar> \<le> 1 / 200"
proof -
  define n where "n = \<lfloor>q * 100 + 1 / 2\<rfloor>"
  define b where "b = dec_digits (n div 100) @ ''.''
                      @ [digit_char (n div 10 mod 10), digit_char (n mod 10)]"
  from assms have sq: "sg = False \<and> 0 \<le> q"
    using quotient_positive_inputs [of h w sg q] by simp
  then have n0: "0 \<le> n" by (simp add: n_def)
  have "toFixed2 (Fin sg q) = b"
    using sq assms(8) unfolding b_def by (simp add: toFixed2_shape [OF _ _ n_def])
  with assms have "bmi (calculateBMI s) = Some b"
    by (simp add: calculateBMI_def Let_def del: js_div.simps js_mul.simps)
  moreover have "is_fixed2 b" and v: "fixed2_value b = of_int n / 100"
    unfolding b_def using n0 by (rule fixed2_string)+
  moreover have "\<bar>of_int n / 100 - q\<bar> \<le> 1 / 200"
  proof -
    have "of_int n \<le> q * 100 + 1 / 2" "q * 100 + 1 / 2 < of_int n + 1"
      unfolding n_def by linarith+
    then have "of_int n / 100 - q \<le> 1 / 200" and "- (of_int n / 100 - q) \<le> 1 / 200"
      by linarith+
    then show ?thesis by (simp only: abs_le_iff)
  qed
  ultimately show ?thesis unfolding n_def [symmetric] by (auto simp: v)
qed

theorem calculateBMI_fixed_point_witness:
  "height \<lparr>height = ''1.75'', weight = ''70'', bmi = None, message = [], darkMode = False\<rparr> \<noteq> []
   \<and> weight \<lparr>height = ''1.75'', weight = ''70'', bmi = None, message = [], darkMode = False\<rparr>
       \<noteq> []
   \<and> ToNumber ''1.75'' = Fin False (7 / 4) \<and> (0::rat) < 7 / 4
   \<and> ToNumber ''70'' = Fin False 70 \<and> (0::rat) < 70
   \<and> js_div (ToNumber ''70'') (js_mul (ToNumber ''1.75'') (ToNumber ''1.75''))
       = Fin False (6433713753386423 / 281474976710656)
   \<and> (6433713753386423 / 281474976710656 :: rat) < 10 ^ 21
   \<and> (\<exists>b. bmi (calculateBMI \<lparr>height = ''1.75'', weight = ''70'', bmi = None, message = [],
                 darkMode = False\<rparr>) = Some b
          \<and> is_fixed2 b
          \<and> fixed2_value b = of_int \<lfloor>(6433713753386423 / 281474976710656 :: rat) * 100 + 1 / 2\<rfloor> / 100
          \<and> \<bar>fixed2_value b - 6433713753386423 / 281474976710656\<bar> \<le> 1 / 200)"
proof -
  let ?s = "\<lparr>height = ''1.75'', weight = ''70'', bmi = None, message = [], darkMode = False\<rparr>"
  have q: "js_div (ToNumber (weight ?s)) (js_mul (ToNumber (height ?s)) (ToNumber (height ?s)))
           = Fin False (6433713753386423 / 281474976710656)"
    by (simp add: ToNumber_1_75 ToNumber_70 quotient_normal del: js_mul.simps js_div.simps)
  have "\<exists>b. bmi (calculateBMI ?s) = Some b \<and> is_fixed2 b
          \<and> fixed2_value b = of_int \<lfloor>(6433713753386423 / 281474976710656 :: rat) * 100 + 1 / 2\<rfloor> / 100
          \<and> \<bar>fixed2_value b - 6433713753386423 / 281474976710656\<bar> \<le> 1 / 200"
    by (rule calculateBMI_fixed_point [OF _ _ _ _ _ _ q, where h = "7 / 4" and w = 70])
      (simp_all add: ToNumber_1_75 ToNumber_70)
  with q show ?thesis
    by (simp add: ToNumber_1_75 ToNumber_70 del: js_mul.simps js_div.simps)
qed

text \<open>
  The claim C1 as it is written fails on two accounts. A weight \<^verbatim>\<open>1e22\<close> at height \<^verbatim>\<open>1\<close>
  is numeric and positive, and the result is \<^verbatim>\<open>1e+22\<close>, in exponent notation and with no
  decimal digit. And the result is the rounding of the binary64 quotient, not of
  \<open>w / h\<^sup>2\<close>: the weight \<^verbatim>\<open>60.3\<close> at height \<^verbatim>\<open>2\<close> gives \<open>15.075\<close>, which the rule of
  \<^verbatim>\<open>toFixed\<close> itself rounds to \<open>15.08\<close>, and the code shows \<^verbatim>\<open>15.07\<close>; with the weight
  \<^verbatim>\<open>60.300000000000000001\<close>, of the same binary64 value, \<open>15.07\<close> is more than \<open>0.005\<close>
  away from \<open>w / h\<^sup>2\<close>.
\<close>

lemma ToNumber_1: "ToNumber ''1'' = Fin False 1"
  by (simp add: str_eval num_eval)

lemma ToNumber_1e22: "ToNumber ''1e22'' = Fin False 10000000000000000000000"
  by (simp add: str_eval num_eval)

lemma quotient_1e22:
  "js_div (Fin False 10000000000000000000000) (js_mul (Fin False 1) (Fin False 1))
   = Fin False 10000000000000000000000"
  by (simp add: num_eval)

lemma length_digits_1e22: "length (dec_digits 10000000000000000000000) = 23"
  by (simp add: dec_digits_small dec_digits_large)

lemma to_double_1e22:
  "to_double False 10000000000000000000000 = Fin False 10000000000000000000000"
  by (simp add: num_eval)

lemma to_double_2e22:
  "to_double False 20000000000000000000000 = Fin False 20000000000000000000000"
  by (simp add: num_eval)

lemma shortest_digits_1e22:
  "shortest_digits (Suc 0) 23 10000000000000000000000 = 10000000000000000000000"
  by (simp add: shortest_digits_step to_double_1e22 to_double_2e22)

lemma toFixed2_1e22: "toFixed2 (Fin False 10000000000000000000000) = ''1e+22''"
  by (simp add: toFixed2_def number_to_string_large_def length_digits_1e22
      shortest_digits_1e22)
    (simp add: dec_digits_small dec_digits_large digit_char_def)

lemma ToNumber_2: "ToNumber ''2'' = Fin False 2"
  by (simp add: str_eval num_eval)

lemma ToNumber_60_3: "ToNumber ''60.3'' = Fin False (4243235273913139 / 70368744177664)"
  by (simp add: str_eval num_eval)

lemma ToNumber_60_3_long:
  "ToNumber ''60.300000000000000001'' = Fin False (4243235273913139 / 70368744177664)"
  by (simp add: str_eval num_eval)

lemma quotient_60_3:
  "js_div (Fin False (4243235273913139 / 70368744177664)) (js_mul (Fin False 2) (Fin False 2))
   = Fin False (4243235273913139 / 281474976710656)"
  by (simp add: num_eval)

lemma toFixed2_60_3: "toFixed2 (Fin False (4243235273913139 / 281474976710656)) = ''15.07''"
  by (simp add: fix_eval)

lemma fixed2_value_15_07: "fixed2_value ''15.07'' = 1507 / 100"
  by (simp add: fixed2_value_def is_digit_def dec_value_def digit_of_def)

theorem calculateBMI_rounding_counterexample:
  "js_lt (Fin False 0) (ToNumber ''1'') \<and> js_lt (Fin False 0) (ToNumber ''1e22'')
   \<and> bmi (calculateBMI \<lparr>height = ''1'', weight = ''1e22'', bmi = None, message = [],
             darkMode = False\<rparr>) = Some ''1e+22''
   \<and> \<not> is_fixed2 ''1e+22''
   \<and> unsigned_decimal ''2'' = Some 2 \<and> unsigned_decimal ''60.3'' = Some (603 / 10)
   \<and> bmi (calculateBMI \<lparr>height = ''2'', weight = ''60.3'', bmi = None, message = [],
             darkMode = False\<rparr>) = Some ''15.07''
   \<and> fixed2_value ''15.07'' \<noteq> of_int \<lfloor>(603 / 10 :: rat) / (2 * 2) * 100 + 1 / 2\<rfloor> / 100
   \<and> unsigned_decimal ''60.300000000000000001''
       = Some (60300000000000000001 / 1000000000000000000)
   \<and> bmi (calculateBMI \<lparr>height = ''2'', weight = ''60.300000000000000001'', bmi = None,
             message = [], darkMode = False\<rparr>) = Some ''15.07''
   \<and> 1 / 200 < \<bar>fixed2_value ''15.07''
                  - 60300000000000000001 / 1000000000000000000 / (2 * 2)\<bar>"
proof -
  have "bmi (calculateBMI \<lparr>height = ''1'', weight = ''1e22'', bmi = None, message = [],
               darkMode = False\<rparr>) = Some ''1e+22''"
    by (simp add: calculateBMI_def Let_def ToNumber_1 ToNumber_1e22 quotient_1e22 toFixed2_1e22
        del: js_mul.simps js_div.simps)
  moreover have "\<not> is_fixed2 ''1e+22''"
    by (simp add: is_fixed2_def is_digit_def)
  moreover have "bmi (calculateBMI \<lparr>height = ''2'', weight = ''60.3'', bmi = None, message = [],
               darkMode = False\<rparr>) = Some ''15.07''"
    by (simp add: calculateBMI_def Let_def ToNumber_2 ToNumber_60_3 quotient_60_3 toFixed2_60_3
        del: js_mul.simps js_div.simps)
  moreover have "bmi (calculateBMI \<lparr>height = ''2'', weight = ''60.300000000000000001'',
               bmi = None, message = [], darkMode = False\<rparr>) = Some ''15.07''"
    by (simp add: calculateBMI_def Let_def ToNumber_2 ToNumber_60_3_long quotient_60_3
        toFixed2_60_3 del: js_mul.simps js_div.simps)
  moreover have "unsigned_decimal ''2'' = Some 2"
    and "unsigned_decimal ''60.3'' = Some (603 / 10)"
    and "unsigned_decimal ''60.300000000000000001''
         = Some (60300000000000000001 / 1000000000000000000)"
    by (simp_all add: str_eval)
  ultimately show ?thesis
    by (simp add: ToNumber_1 ToNumber_1e22 rval_def fixed2_value_15_07 floor_frac_num)
qed

text \<open>
  C2. The category is a function of the result string alone, it is one of the four labels
  for every string, and on the Number that the comparisons read from the string its
  bands are the ones of the table: below \<open>18.5\<close> "Underweight", from \<open>18.5\<close> and below
  \<open>24.9\<close> "Normal weight", from \<open>24.9\<close> and below \<open>29.9\<close> "Overweight", from \<open>29.9\<close> on
  "Obese". On a result with two decimal digits the bands are those of its exact decimal
  value, with the boundaries at exactly \<open>18.5\<close>, \<open>24.9\<close> and \<open>29.9\<close>.
\<close>

theorem category_bands:
  "(js_lt (ToNumber b) lit_18_5 \<longrightarrow> category b = ''Underweight'')
   \<and> (js_le lit_18_5 (ToNumber b) \<and> js_lt (ToNumber b) lit_24_9
        \<longrightarrow> category b = ''Normal weight'')
   \<and> (js_le lit_24_9 (ToNumber b) \<and> js_lt (ToNumber b) lit_29_9
        \<longrightarrow> category b = ''Overweight'')
   \<and> (js_le lit_29_9 (ToNumber b) \<longrightarrow> category b = ''Obese'')
   \<and> category b \<in> {''Underweight'', ''Normal weight'', ''Overweight'', ''Obese''}
   \<and> (is_fixed2 b \<longrightarrow>
        category b =
          (if fixed2_value b < 185 / 10 then ''Underweight''
           else if fixed2_value b < 249 / 10 then ''Normal weight''
           else if fixed2_value b < 299 / 10 then ''Overweight''
           else ''Obese''))"
proof -
  have "(js_lt (ToNumber b) lit_18_5 \<longrightarrow> category b = ''Underweight'')
   \<and> (js_le lit_18_5 (ToNumber b) \<and> js_lt (ToNumber b) lit_24_9
        \<longrightarrow> category b = ''Normal weight'')
   \<and> (js_le lit_24_9 (ToNumber b) \<and> js_lt (ToNumber b) lit_29_9
        \<longrightarrow> category b = ''Overweight'')
   \<and> (js_le lit_29_9 (ToNumber b) \<longrightarrow> category b = ''Obese'')
   \<and> category b \<in> {''Underweight'', ''Normal weight'', ''Overweight'', ''Obese''}"
    unfolding category_def lit_eval
    by (cases "ToNumber b") (auto simp: rval_def split: if_splits)
  with category_exact [of b] show ?thesis by blast
qed

theorem category_bands_witness:
  "js_lt (ToNumber ''17.58'') lit_18_5 \<and> category ''17.58'' = ''Underweight''
   \<and> js_le lit_18_5 (ToNumber ''22.86'') \<and> js_lt (ToNumber ''22.86'') lit_24_9
   \<and> category ''22.86'' = ''Normal weight''
   \<and> js_le lit_24_9 (ToNumber ''24.90'') \<and> js_lt (ToNumber ''24.90'') lit_29_9
   \<and> category ''24.90'' = ''Overweight''
   \<and> js_le lit_29_9 (ToNumber ''29.90'') \<and> category ''29.90'' = ''Obese''
   \<and> is_fixed2 ''24.90'' \<and> fixed2_value ''24.90'' = 249 / 10"
proof -
  have e: "is_fixed2 ''24.90''" "fixed2_value ''24.90'' = 249 / 10"
    by (simp_all add: is_fixed2_def fixed2_value_def is_digit_def dec_value_def digit_of_def)
  have a: "js_lt (ToNumber ''17.58'') lit_18_5"
    by (simp add: ToNumber_17_58 lit_eval)
  have b: "js_le lit_18_5 (ToNumber ''22.86'') \<and> js_lt (ToNumber ''22.86'') lit_24_9"
    by (simp add: ToNumber_22_86 lit_eval)
  have c: "js_le lit_24_9 (ToNumber ''24.90'') \<and> js_lt (ToNumber ''24.90'') lit_29_9"
    by (simp add: ToNumber_24_90 lit_eval)
  have d: "js_le lit_29_9 (ToNumber ''29.90'')"
    by (simp add: ToNumber_29_90 lit_eval)
  have "category ''17.58'' = ''Underweight''"
    using a category_bands [of "''17.58''"] by simp
  moreover have "category ''22.86'' = ''Normal weight''"
    using b category_bands [of "''22.86''"] by simp
  moreover have "category ''24.90'' = ''Overweight''"
    using c category_bands [of "''24.90''"] by simp
  moreover have "category ''29.90'' = ''Obese''"
    using d category_bands [of "''29.90''"] by simp
  ultimately show ?thesis using a b c d e by simp
qed

text \<open>
  C5. The three scenarios of the specification, from any earlier result, message and
  theme: height 1.75 and weight 70 give 22.86 and "Normal weight", height 1.60 and weight
  45 give 17.58 and "Underweight", height 1.80 and weight 100 give 30.86 and "Obese".
\<close>

theorem concrete_scenarios:
  "calculateBMI \<lparr>height = ''1.75'', weight = ''70'', bmi = b, message = m, darkMode = d\<rparr>
     = \<lparr>height = ''1.75'', weight = ''70'', bmi = Some ''22.86'',
        message = ''Normal weight'', darkMode = d\<rparr>
   \<and> calculateBMI \<lparr>height = ''1.60'', weight = ''45'', bmi = b, message = m, darkMode = d\<rparr>
     = \<lparr>height = ''1.60'', weight = ''45'', bmi = Some ''17.58'',
        message = ''Underweight'', darkMode = d\<rparr>
   \<and> calculateBMI \<lparr>height = ''1.80'', weight = ''100'', bmi = b, message = m, darkMode = d\<rparr>
     = \<lparr>height = ''1.80'', weight = ''100'', bmi = Some ''30.86'',
        message = ''Obese'', darkMode = d\<rparr>"
  by (simp only: scenario_normal scenario_under scenario_obese)

text \<open>
  C10. When both inputs are non-empty and the quotient is NaN or \<open>+Infinity\<close>, the result
  is the string "NaN" or "Infinity", each of the three comparisons of the ladder is false
  on it, and the message is "Obese".
\<close>

theorem calculateBMI_not_finite:
  assumes "height s \<noteq> []" and "weight s \<noteq> []"
    and "js_div (ToNumber (weight s)) (js_mul (ToNumber (height s)) (ToNumber (height s))) = q"
    and "q = NaN \<or> q = Inf False"
  shows "\<exists>b. bmi (calculateBMI s) = Some b
           \<and> b = (if q = NaN then ''NaN'' else ''Infinity'')
           \<and> \<not> js_lt (ToNumber b) lit_18_5
           \<and> \<not> js_lt (ToNumber b) lit_24_9
           \<and> \<not> js_lt (ToNumber b) lit_29_9
           \<and> message (calculateBMI s) = ''Obese''"
proof -
  from assms(4) show ?thesis
  proof
    assume "q = NaN"
    with assms(1-3) show ?thesis
      by (simp add: calculateBMI_def category_def toFixed2_def ToNumber_NaN
          del: js_mul.simps js_div.simps)
  next
    assume "q = Inf False"
    with assms(1-3) show ?thesis
      by (simp add: calculateBMI_def category_def toFixed2_def ToNumber_Infinity lit_eval
          del: js_mul.simps js_div.simps)
  qed
qed

theorem calculateBMI_not_finite_witness:
  "height \<lparr>height = ''0'', weight = ''70'', bmi = None, message = [], darkMode = False\<rparr> \<noteq> []
   \<and> weight \<lparr>height = ''0'', weight = ''70'', bmi = None, message = [], darkMode = False\<rparr> \<noteq> []
   \<and> js_div (ToNumber ''70'') (js_mul (ToNumber ''0'') (ToNumber ''0'')) = Inf False
   \<and> bmi (calculateBMI \<lparr>height = ''0'', weight = ''70'', bmi = None, message = [],
             darkMode = False\<rparr>) = Some ''Infinity''
   \<and> \<not> js_lt (ToNumber ''Infinity'') lit_18_5
   \<and> \<not> js_lt (ToNumber ''Infinity'') lit_24_9
   \<and> \<not> js_lt (ToNumber ''Infinity'') lit_29_9
   \<and> message (calculateBMI \<lparr>height = ''0'', weight = ''70'', bmi = None, message = [],
                 darkMode = False\<rparr>) = ''Obese''"
proof -
  let ?s = "\<lparr>height = ''0'', weight = ''70'', bmi = None, message = [], darkMode = False\<rparr>"
  have q: "js_div (ToNumber (weight ?s)) (js_mul (ToNumber (height ?s)) (ToNumber (height ?s)))
           = Inf False"
    by (simp add: ToNumber_0 ToNumber_70 to_double_def)
  from calculateBMI_not_finite [OF _ _ q] q show ?thesis
    by (auto simp del: js_mul.simps js_div.simps)
qed

section \<open>Sequences of events\<close>

text \<open>
  C6. After every sequence of field edits, submissions, resets and theme toggles from the
  initial state: when there is a result and the message is not the instruction string,
  the message is the category of the result, by the rows of the table on the Number that
  the result string denotes ("Obese", the last rung of the ladder, when it denotes none).
\<close>

theorem message_consistent:
  assumes "bmi (run es) = Some b"
    and "message (run es) \<noteq> ''Please enter valid height and weight''"
  shows "message (run es) = category b
    \<and> ((js_lt (ToNumber b) lit_18_5 \<and> message (run es) = ''Underweight'')
       \<or> (js_le lit_18_5 (ToNumber b) \<and> js_lt (ToNumber b) lit_24_9
           \<and> message (run es) = ''Normal weight'')
       \<or> (js_le lit_24_9 (ToNumber b) \<and> js_lt (ToNumber b) lit_29_9
           \<and> message (run es) = ''Overweight'')
       \<or> ((js_le lit_29_9 (ToNumber b) \<or> ToNumber b = NaN)
           \<and> message (run es) = ''Obese''))"
proof -
  from run_invariant [of es] assms have "message (run es) = category b" by auto
  with category_rows [of b] show ?thesis by simp
qed

theorem message_consistent_witness:
  "bmi (run [ChangeHeight ''1.75'', ChangeWeight ''70'', Submit]) = Some ''22.86''
   \<and> message (run [ChangeHeight ''1.75'', ChangeWeight ''70'', Submit])
       \<noteq> ''Please enter valid height and weight''
   \<and> message (run [ChangeHeight ''1.75'', ChangeWeight ''70'', Submit]) = category ''22.86''
   \<and> js_le lit_18_5 (ToNumber ''22.86'') \<and> js_lt (ToNumber ''22.86'') lit_24_9
   \<and> message (run [ChangeHeight ''1.75'', ChangeWeight ''70'', Submit]) = ''Normal weight''"
proof -
  have a: "bmi (run [ChangeHeight ''1.75'', ChangeWeight ''70'', Submit]) = Some ''22.86''"
    and b: "message (run [ChangeHeight ''1.75'', ChangeWeight ''70'', Submit])
            \<noteq> ''Please enter valid height and weight''"
    by (simp_all add: run_normal)
  have c: "js_le lit_18_5 (ToNumber ''22.86'') \<and> js_lt (ToNumber ''22.86'') lit_24_9"
    by (simp add: ToNumber_22_86 lit_eval)
  from message_consistent [OF a b] a b c show ?thesis
    by (simp add: run_normal)
qed

text \<open>
  The transitions of the state machine that the component follows: it starts empty, a
  submission with both inputs filled shows a result, a submission with an input empty
  after a result shows the error, the reset empties the widget, the theme button keeps
  the state, and the result block is rendered in every state but the empty one.
\<close>

lemma widget_transitions:
  "widget_state initial_state = Empty"
  "height a \<noteq> [] \<and> weight a \<noteq> [] \<Longrightarrow> widget_state (calculateBMI a) = ResultShown"
  "height e = [] \<or> weight e = [] \<Longrightarrow> result_rendered e
     \<Longrightarrow> widget_state (calculateBMI e) = ErrorShown"
  "widget_state (resetForm s) = Empty"
  "widget_state (toggleDarkMode s) = widget_state s"
  "result_rendered r \<longleftrightarrow> widget_state r \<noteq> Empty"
proof -
  show "widget_state initial_state = Empty"
    by (simp add: widget_state_def initial_state_def result_rendered_def)
  show "height a \<noteq> [] \<and> weight a \<noteq> [] \<Longrightarrow> widget_state (calculateBMI a) = ResultShown"
    by (simp add: widget_state_def calculateBMI_def Let_def result_rendered_def
        category_not_error toFixed2_not_empty)
  show "height e = [] \<or> weight e = [] \<Longrightarrow> result_rendered e
     \<Longrightarrow> widget_state (calculateBMI e) = ErrorShown"
    by (auto simp: widget_state_def calculateBMI_def result_rendered_def)
  show "widget_state (resetForm s) = Empty"
    by (simp add: widget_state_def resetForm_def result_rendered_def)
  show "widget_state (toggleDarkMode s) = widget_state s"
    by (simp add: widget_state_def toggleDarkMode_def result_rendered_def)
  show "result_rendered r \<longleftrightarrow> widget_state r \<noteq> Empty"
    by (simp add: widget_state_def)
qed

text \<open>
  With no result yet, the handler of a submission with an input empty stores the
  instruction string and the view shows none of it: the widget stays empty.
\<close>

lemma failed_submission_hidden:
  assumes "height e = [] \<or> weight e = []" and "\<not> result_rendered e"
  shows "message (calculateBMI e) = ''Please enter valid height and weight''"
    and "\<not> result_rendered (calculateBMI e)"
    and "widget_state (calculateBMI e) = Empty"
  using assms by (auto simp: widget_state_def calculateBMI_def result_rendered_def)


section \<open>Failed submission, reset, theme and field edits\<close>

text \<open>
  C3. A submission with the height or the weight empty sets the message to the fixed
  string "Please enter valid height and weight" and changes nothing else: the result of
  an earlier submission, present or absent, stays as it was.
\<close>

theorem calculateBMI_empty_field:
  assumes "height s = [] \<or> weight s = []"
  shows "calculateBMI s = s\<lparr>message := ''Please enter valid height and weight''\<rparr>
         \<and> message (calculateBMI s) = ''Please enter valid height and weight''
         \<and> bmi (calculateBMI s) = bmi s"
  using assms by (auto simp: calculateBMI_def)

theorem calculateBMI_empty_field_witness:
  "(height \<lparr>height = [], weight = ''70'', bmi = Some ''22.86'', message = ''Normal weight'',
            darkMode = False\<rparr> = []
    \<or> weight \<lparr>height = [], weight = ''70'', bmi = Some ''22.86'', message = ''Normal weight'',
            darkMode = False\<rparr> = [])
   \<and> calculateBMI \<lparr>height = [], weight = ''70'', bmi = Some ''22.86'',
          message = ''Normal weight'', darkMode = False\<rparr>
       = \<lparr>height = [], weight = ''70'', bmi = Some ''22.86'',
          message = ''Please enter valid height and weight'', darkMode = False\<rparr>
   \<and> bmi (calculateBMI \<lparr>height = [], weight = ''70'', bmi = Some ''22.86'',
          message = ''Normal weight'', darkMode = False\<rparr>) = Some ''22.86''"
  using calculateBMI_empty_field
    [of "\<lparr>height = [], weight = ''70'', bmi = Some ''22.86'', message = ''Normal weight'',
          darkMode = False\<rparr>"]
  by simp

text \<open>
  C4. From every state, the reset gives the initial state in the four cells of the form:
  both inputs are the empty string, there is no result and no message. The reset has no
  input and no failure; the theme is the one cell it does not write.
\<close>

theorem resetForm_initial:
  "resetForm s = initial_state\<lparr>darkMode := darkMode s\<rparr>
   \<and> height (resetForm s) = height initial_state \<and> height (resetForm s) = []
   \<and> weight (resetForm s) = weight initial_state \<and> weight (resetForm s) = []
   \<and> bmi (resetForm s) = bmi initial_state \<and> bmi (resetForm s) = None
   \<and> message (resetForm s) = message initial_state \<and> message (resetForm s) = []"
  by (simp add: resetForm_def initial_state_def)

text \<open>
  C7. Two clicks on the theme button give back the state they started from, and one click
  changes the theme flag and none of the inputs, the result and the message.
\<close>

theorem toggleDarkMode_involution:
  "toggleDarkMode (toggleDarkMode s) = s
   \<and> darkMode (toggleDarkMode s) = (\<not> darkMode s)
   \<and> height (toggleDarkMode s) = height s
   \<and> weight (toggleDarkMode s) = weight s
   \<and> bmi (toggleDarkMode s) = bmi s
   \<and> message (toggleDarkMode s) = message s"
  by (simp add: toggleDarkMode_def)

text \<open>
  C9. A change event stores the new string, whatever it is, in the cell of its input and
  leaves the four other cells as they were.
\<close>

theorem change_event_frame:
  "setHeight v s = s\<lparr>height := v\<rparr>
   \<and> height (setHeight v s) = v
   \<and> weight (setHeight v s) = weight s
   \<and> bmi (setHeight v s) = bmi s
   \<and> message (setHeight v s) = message s
   \<and> darkMode (setHeight v s) = darkMode s
   \<and> setWeight v s = s\<lparr>weight := v\<rparr>
   \<and> weight (setWeight v s) = v
   \<and> height (setWeight v s) = height s
   \<and> bmi (setWeight v s) = bmi s
   \<and> message (setWeight v s) = message s
   \<and> darkMode (setWeight v s) = darkMode s"
  by (simp add: setHeight_def setWeight_def)

end
